theory Spec2Isabelle
  imports Main "HOL-Library.Word"
begin

unbundle bit_operations_syntax

section \<open>The fenced accessor of MicroPXL: writeMemSafe and readMemSafe\<close>

text \<open>
  The file \<^verbatim>\<open>Source/WriteMemSafe.c\<close> holds two functions. Each one does a single
  32-bit access through a raw pointer, between two calls of the compiler builtin
  \<^verbatim>\<open>__sync_synchronize()\<close>:

  \<^verbatim>\<open>void writeMemSafe(void* address, uint32_t value)
  { __sync_synchronize(); *((uint32_t*)address) = value; __sync_synchronize(); }\<close>

  \<^verbatim>\<open>uint32_t readMemSafe(void const* address)
  { __sync_synchronize(); uint32_t const value = *((uint32_t const*)address);
    __sync_synchronize(); return value; }\<close>

  The embedding is sequential: one execution context and a byte-addressed memory.
  Neither function tests its pointer, so the model has no failure branch; what C leaves
  undefined for a pointer that is not valid is outside of the model, and every statement
  below is to be read for addresses the caller is allowed to access.
\<close>

subsection \<open>Memory, byte order and the events of a run\<close>

text \<open>
  An address is the index of a byte. A 32-bit object at \<open>a\<close> occupies the four bytes
  \<open>a\<close>, \<open>a + 1\<close>, \<open>a + 2\<close>, \<open>a + 3\<close>; an object never wraps around the end of the address
  space, so the indices are natural numbers and no pointer width is fixed.
\<close>

type_synonym addr = nat
type_synonym byte = "8 word"
type_synonym u32 = "32 word"

text \<open>
  The source does not fix the byte order of the target, so it is an argument of the
  model (the first one of every operation).
\<close>

datatype endian = LittleEndian | BigEndian

text \<open>
  What a call does, in program order: a full barrier, a 32-bit store, a 32-bit load.
\<close>

datatype event = Barrier | Store addr u32 | Load addr u32

record machine =
  mem :: "addr \<Rightarrow> byte"
  trace :: "event list"

subsection \<open>Object representation of a uint32_t\<close>

definition le_bytes :: "u32 \<Rightarrow> byte list" where
  "le_bytes v = [ucast v, ucast (drop_bit 8 v), ucast (drop_bit 16 v), ucast (drop_bit 24 v)]"

fun le_word :: "byte list \<Rightarrow> u32" where
  "le_word [] = 0"
| "le_word (b # bs) = ucast b OR push_bit 8 (le_word bs)"

definition bytes_of :: "endian \<Rightarrow> u32 \<Rightarrow> byte list" where
  "bytes_of e v = (case e of LittleEndian \<Rightarrow> le_bytes v | BigEndian \<Rightarrow> rev (le_bytes v))"

definition word_of :: "endian \<Rightarrow> byte list \<Rightarrow> u32" where
  "word_of e bs = (case e of LittleEndian \<Rightarrow> le_word bs | BigEndian \<Rightarrow> le_word (rev bs))"

subsection \<open>Byte-wise access to the memory\<close>

fun write_bytes :: "addr \<Rightarrow> byte list \<Rightarrow> (addr \<Rightarrow> byte) \<Rightarrow> (addr \<Rightarrow> byte)" where
  "write_bytes a [] m = m"
| "write_bytes a (b # bs) m = write_bytes (Suc a) bs (m(a := b))"

fun read_bytes :: "addr \<Rightarrow> nat \<Rightarrow> (addr \<Rightarrow> byte) \<Rightarrow> byte list" where
  "read_bytes a 0 m = []"
| "read_bytes a (Suc n) m = m a # read_bytes (Suc a) n m"

text \<open>The bytes of the 32-bit object at an address.\<close>

definition slot :: "addr \<Rightarrow> addr set" where
  "slot a = {a, a + 1, a + 2, a + 3}"

subsection \<open>The three primitive steps\<close>

text \<open>
  \<^verbatim>\<open>__sync_synchronize()\<close>: a full barrier. In one execution context it changes no
  memory; the model records that it was issued.
\<close>

definition sync_synchronize :: "machine \<Rightarrow> unit \<times> machine" where
  "sync_synchronize s = ((), s\<lparr>trace := trace s @ [Barrier]\<rparr>)"

text \<open>\<^verbatim>\<open>*((uint32_t*)address) = value\<close>\<close>

definition store32 :: "endian \<Rightarrow> addr \<Rightarrow> u32 \<Rightarrow> machine \<Rightarrow> unit \<times> machine" where
  "store32 e a v s =
     ((), s\<lparr>mem := write_bytes a (bytes_of e v) (mem s), trace := trace s @ [Store a v]\<rparr>)"

text \<open>\<^verbatim>\<open>*((uint32_t const*)address)\<close>\<close>

definition load32 :: "endian \<Rightarrow> addr \<Rightarrow> machine \<Rightarrow> u32 \<times> machine" where
  "load32 e a s =
     (let v = word_of e (read_bytes a 4 (mem s))
      in (v, s\<lparr>trace := trace s @ [Load a v]\<rparr>))"

subsection \<open>The two functions of the source\<close>

definition writeMemSafe :: "endian \<Rightarrow> addr \<Rightarrow> u32 \<Rightarrow> machine \<Rightarrow> unit \<times> machine" where
  "writeMemSafe e address v s =
     (let (_, s1) = sync_synchronize s;
          (_, s2) = store32 e address v s1;
          (_, s3) = sync_synchronize s2
      in ((), s3))"

definition readMemSafe :: "endian \<Rightarrow> addr \<Rightarrow> machine \<Rightarrow> u32 \<times> machine" where
  "readMemSafe e address s =
     (let (_, s1) = sync_synchronize s;
          (v, s2) = load32 e address s1;
          (_, s3) = sync_synchronize s2
      in (v, s3))"

subsection \<open>A test driver: write each value, read it back at once\<close>

text \<open>
  The scenario of the alternating writes: every value of a list is written to the same
  address and read back immediately; the driver returns what the reads gave.
\<close>

fun alternating :: "bool \<Rightarrow> nat \<Rightarrow> u32 list" where
  "alternating b 0 = []"
| "alternating False (Suc n) = 0x00000000 # alternating True n"
| "alternating True (Suc n) = 0xFFFFFFFF # alternating False n"

fun write_read_each :: "endian \<Rightarrow> addr \<Rightarrow> u32 list \<Rightarrow> machine \<Rightarrow> u32 list \<times> machine" where
  "write_read_each e a [] s = ([], s)"
| "write_read_each e a (v # vs) s =
     (let (_, s1) = writeMemSafe e a v s;
          (r, s2) = readMemSafe e a s1;
          (rs, s3) = write_read_each e a vs s2
      in (r # rs, s3))"

subsection \<open>The bodies as statement lists\<close>

text \<open>
  To say that a call returns, the two bodies are also written down statement by
  statement and run by an executor that counts its steps. The first four statements
  are the ones the source uses:
  \<^item> \<open>Sync\<close> is \<^verbatim>\<open>__sync_synchronize();\<close>
  \<^item> \<open>StoreValue\<close> is \<^verbatim>\<open>*((uint32_t*)address) = value;\<close>
  \<^item> \<open>LoadValue\<close> is \<^verbatim>\<open>uint32_t const value = *((uint32_t const*)address);\<close>
  \<^item> \<open>ReturnValue\<close> is \<^verbatim>\<open>return value;\<close>

  The other three are what the source does not use, and what could keep a call from
  returning: a jump (which is what a loop is made of), a call of the function by itself,
  and a step that waits for another execution context and so makes no progress in this one.
\<close>

datatype stmt =
    Sync
  | StoreValue
  | LoadValue
  | ReturnValue
  | Goto nat
  | CallSelf
  | Wait

text \<open>
  \<open>run k e body address v pc loc s\<close> executes at most \<open>k\<close> steps of \<open>body\<close> from the
  statement at index \<open>pc\<close>, where \<open>loc\<close> is the local variable \<^verbatim>\<open>value\<close> of
  \<open>readMemSafe\<close> (not yet set at entry). The outcome \<open>None\<close> says that the body has not
  returned within \<open>k\<close> steps; \<open>Some (r, s')\<close> gives the returned value (\<open>None\<close> for a
  function returning \<^verbatim>\<open>void\<close> that reaches its closing brace) and the machine
  at the return. The accesses are the primitive steps \<open>sync_synchronize\<close>, \<open>store32\<close> and
  \<open>load32\<close> from above.
\<close>

fun run :: "nat \<Rightarrow> endian \<Rightarrow> stmt list \<Rightarrow> addr \<Rightarrow> u32 \<Rightarrow> nat \<Rightarrow> u32 option \<Rightarrow> machine
    \<Rightarrow> (u32 option \<times> machine) option" where
  "run 0 e body address v pc loc s = None"
| "run (Suc k) e body address v pc loc s =
     (if length body \<le> pc then Some (None, s)
      else case body ! pc of
          Sync \<Rightarrow>
            (case sync_synchronize s of (_, s') \<Rightarrow> run k e body address v (Suc pc) loc s')
        | StoreValue \<Rightarrow>
            (case store32 e address v s of (_, s') \<Rightarrow> run k e body address v (Suc pc) loc s')
        | LoadValue \<Rightarrow>
            (case load32 e address s of (r, s') \<Rightarrow> run k e body address v (Suc pc) (Some r) s')
        | ReturnValue \<Rightarrow> Some (loc, s)
        | Goto n \<Rightarrow> run k e body address v n loc s
        | CallSelf \<Rightarrow>
            (case run k e body address v 0 None s of
               None \<Rightarrow> None
             | Some (_, s') \<Rightarrow> run k e body address v (Suc pc) loc s')
        | Wait \<Rightarrow> run k e body address v pc loc s)"

text \<open>Lines 6 to 8 of the source; the closing brace of line 9 ends the call.\<close>

definition writeMemSafe_body :: "stmt list" where
  "writeMemSafe_body = [Sync, StoreValue, Sync]"

text \<open>
  Lines 13 to 16 of the source. \<open>readMemSafe\<close> has no value argument: its body has no
  \<open>StoreValue\<close>, and the value handed to \<open>run\<close> is never looked at.
\<close>

definition readMemSafe_body :: "stmt list" where
  "readMemSafe_body = [Sync, LoadValue, Sync, ReturnValue]"

text \<open>A body is straight-line when it has no jump, no call of itself and no waiting step.\<close>

fun plain :: "stmt \<Rightarrow> bool" where
  "plain (Goto n) = False"
| "plain CallSelf = False"
| "plain Wait = False"
| "plain _ = True"

fun straight_line :: "stmt list \<Rightarrow> bool" where
  "straight_line [] = True"
| "straight_line (c # cs) = (plain c \<and> straight_line cs)"

section \<open>Properties\<close>

subsection \<open>Representation and byte access\<close>

lemma le_word_le_bytes: "le_word (le_bytes v) = v"
proof (rule bit_word_eqI)
  fix n assume n: "n < LENGTH(32)"
  consider "n < 8" | "8 \<le> n" "n < 16" | "16 \<le> n" "n < 24" | "24 \<le> n"
    by linarith
  then show "bit (le_word (le_bytes v)) n = bit v n"
    using n by cases (auto simp: le_bytes_def bit_simps)
qed

lemma word_of_bytes_of: "word_of e (bytes_of e v) = v"
  by (cases e) (simp_all add: word_of_def bytes_of_def le_word_le_bytes)

lemma length_bytes_of: "length (bytes_of e v) = 4"
  by (cases e) (simp_all add: bytes_of_def le_bytes_def)

lemma write_bytes_outside:
  "p < a \<or> a + length bs \<le> p \<Longrightarrow> write_bytes a bs m p = m p"
  by (induction bs arbitrary: a m) auto

lemma read_write_bytes: "read_bytes a (length bs) (write_bytes a bs m) = bs"
  by (induction bs arbitrary: a m) (simp_all add: write_bytes_outside)

lemma read_bytes_cong:
  "(\<And>p. a \<le> p \<Longrightarrow> p < a + n \<Longrightarrow> m p = m' p) \<Longrightarrow> read_bytes a n m = read_bytes a n m'"
  by (induction n arbitrary: a) auto

lemma read_bytes_4: "read_bytes a 4 m = [m a, m (a + 1), m (a + 2), m (a + 3)]"
  by (simp add: eval_nat_numeral)

lemma slot_iff: "p \<in> slot a \<longleftrightarrow> a \<le> p \<and> p < a + 4"
  by (auto simp: slot_def)

lemma read_store_same: "read_bytes a 4 (write_bytes a (bytes_of e v) m) = bytes_of e v"
  using read_write_bytes [of a "bytes_of e v" m] by (simp add: length_bytes_of)

lemma write_bytes_frame: "p \<notin> slot a \<Longrightarrow> write_bytes a (bytes_of e v) m p = m p"
  by (rule write_bytes_outside) (auto simp: slot_iff length_bytes_of)

lemma read_store_other:
  assumes "slot a \<inter> slot b = {}"
  shows "read_bytes a 4 (write_bytes b (bytes_of e v) m) = read_bytes a 4 m"
proof (rule read_bytes_cong)
  fix p assume "a \<le> p" "p < a + 4"
  then have "p \<in> slot a" by (simp add: slot_iff)
  with assms have "p \<notin> slot b" by blast
  then show "write_bytes b (bytes_of e v) m p = m p" by (rule write_bytes_frame)
qed

subsection \<open>The two functions, step by step\<close>

lemma writeMemSafe_eq:
  "writeMemSafe e a v s =
     ((), s\<lparr>mem := write_bytes a (bytes_of e v) (mem s),
            trace := trace s @ [Barrier, Store a v, Barrier]\<rparr>)"
  by (simp add: writeMemSafe_def sync_synchronize_def store32_def)

lemma readMemSafe_eq:
  "readMemSafe e a s =
     (word_of e (read_bytes a 4 (mem s)),
      s\<lparr>trace := trace s @ [Barrier, Load a (word_of e (read_bytes a 4 (mem s))), Barrier]\<rparr>)"
  by (simp add: readMemSafe_def sync_synchronize_def load32_def Let_def)

lemma read_after_write:
  "fst (readMemSafe e a (snd (writeMemSafe e a v s))) = v"
  by (simp add: writeMemSafe_eq readMemSafe_eq read_store_same word_of_bytes_of)

lemma mem_readMemSafe: "mem (snd (readMemSafe e a s)) = mem s"
  by (simp add: readMemSafe_eq)

lemma write_read_each_any: "fst (write_read_each e a vs s) = vs"
  by (induction vs arbitrary: s) (simp_all add: read_after_write split_beta Let_def)

lemma le_word_4:
  "le_word [b0, b1, b2, b3] =
     ucast b0 OR push_bit 8 (ucast b1) OR push_bit 16 (ucast b2) OR push_bit 24 (ucast b3)"
  by (simp add: push_bit_or push_bit_push_bit)

lemma le_bytes_le_word: "le_bytes (le_word [b0, b1, b2, b3]) = [b0, b1, b2, b3]"
  unfolding le_bytes_def
  by (simp add: push_bit_or push_bit_push_bit)
    (intro conjI; rule bit_word_eqI; auto simp: bit_simps dest: bit_imp_le_length)

subsection \<open>The executor\<close>

text \<open>Each of the three statements the source does not use keeps a body from returning.\<close>

lemma run_Goto_loops: "run k e [Goto 0] a v 0 loc s = None"
  by (induction k) simp_all

lemma run_CallSelf_recurses: "run k e [CallSelf] a v 0 loc s = None"
  by (induction k arbitrary: loc s) simp_all

lemma run_Wait_blocks: "run k e [Wait] a v 0 loc s = None"
  by (induction k) simp_all

text \<open>A straight-line body returns, within one step per statement left and one more.\<close>

lemma plain_nth: "straight_line body \<Longrightarrow> pc < length body \<Longrightarrow> plain (body ! pc)"
  by (induction body arbitrary: pc) (auto simp: nth_Cons')

lemma straight_line_returns:
  "straight_line body \<Longrightarrow>
   \<exists>r. run (Suc (length body - pc) + k) e body a v pc loc s = Some r"
proof (induction "length body - pc" arbitrary: pc loc s)
  case 0
  then show ?case by simp
next
  case (Suc n)
  then have pc: "pc < length body" and n: "n = length body - Suc pc"
    by simp_all
  from Suc.prems pc have "plain (body ! pc)"
    by (rule plain_nth)
  moreover have "Suc (length body - pc) + k = Suc (Suc (length body - Suc pc) + k)"
    using pc by simp
  moreover note Suc.hyps(1) [OF n Suc.prems]
  ultimately show ?case
    using pc by (cases "body ! pc") (simp_all add: split_beta)
qed

section \<open>The claims of the specification\<close>

text \<open>
  In all statements \<open>e\<close> is the byte order of the target, \<open>s\<close> the machine before the
  calls, and \<open>fst\<close> and \<open>snd\<close> select the returned value and the machine after a call.
  The statements hold at every address of the model, so in particular at every valid,
  4-byte-aligned one.
\<close>

text \<open>
  C1 (round trip). For every 32-bit value \<open>v\<close> and every address \<open>a\<close>, a call of
  \<open>writeMemSafe\<close> with \<open>a\<close> and \<open>v\<close> followed by a call of \<open>readMemSafe\<close> with \<open>a\<close>
  returns \<open>v\<close>; in particular writing \<open>0xDEADBEEF\<close> to a storage location \<open>buf\<close> and
  reading \<open>buf\<close> returns \<open>0xDEADBEEF\<close>.
\<close>

theorem write_then_read_roundtrip:
  "fst (readMemSafe e a (snd (writeMemSafe e a v s))) = v \<and>
   fst (readMemSafe e buf (snd (writeMemSafe e buf 0xDEADBEEF s))) = 0xDEADBEEF"
  by (simp add: read_after_write)

text \<open>
  C2 (alternating writes). For every address \<open>a\<close> and every number \<open>n\<close> of rounds, when
  the values \<open>0x00000000\<close> and \<open>0xFFFFFFFF\<close> are written to \<open>a\<close> in turn (starting
  with either one) and each write is followed at once by a read of \<open>a\<close>, every read
  returns the value just written: the list of values read is the list of values written.
\<close>

theorem alternating_writes_read_back:
  "fst (write_read_each e a (alternating b n) s) = alternating b n"
  by (rule write_read_each_any)

text \<open>
  C3 (reading twice). For every address \<open>a\<close> and every machine, two calls of
  \<open>readMemSafe\<close> with \<open>a\<close> in succession, the second one on the machine the first one
  left, return the same value.
\<close>

theorem read_twice_same:
  "(case readMemSafe e a s of (r1, s1) \<Rightarrow>
      case readMemSafe e a s1 of (r2, s2) \<Rightarrow> r1 = r2)"
  by (simp add: readMemSafe_eq)

text \<open>
  C4 (independence). For addresses \<open>a\<close> and \<open>b\<close> whose 32-bit slots do not overlap (so
  that \<open>a\<close> and \<open>b\<close> are distinct) and all values \<open>v1\<close>, \<open>v2\<close>: after writing \<open>v1\<close> to \<open>a\<close>
  and then \<open>v2\<close> to \<open>b\<close>, reading \<open>a\<close> returns \<open>v1\<close> and reading \<open>b\<close> (after the read of
  \<open>a\<close>, or in its place) returns \<open>v2\<close>; the write to \<open>b\<close> leaves the four bytes at \<open>a\<close>
  as they were.
\<close>

theorem writes_independent:
  "slot a \<inter> slot b = {} \<Longrightarrow>
   (case writeMemSafe e a v1 s of (_, s1) \<Rightarrow>
      case writeMemSafe e b v2 s1 of (_, s2) \<Rightarrow>
        case readMemSafe e a s2 of (r1, s3) \<Rightarrow>
          case readMemSafe e b s3 of (r2, s4) \<Rightarrow>
            r1 = v1 \<and> r2 = v2 \<and>
            fst (readMemSafe e b s2) = v2 \<and>
            read_bytes a 4 (mem s2) = read_bytes a 4 (mem s1))"
  by (simp add: writeMemSafe_eq readMemSafe_eq read_store_same read_store_other
      word_of_bytes_of)

theorem writes_independent_witness:
  "slot 0 \<inter> slot 4 = {} \<and>
   (case writeMemSafe LittleEndian 0 0x11223344 \<lparr>mem = (\<lambda>_. 0), trace = []\<rparr> of (_, s1) \<Rightarrow>
      case writeMemSafe LittleEndian 4 0xAABBCCDD s1 of (_, s2) \<Rightarrow>
        case readMemSafe LittleEndian 0 s2 of (r1, s3) \<Rightarrow>
          case readMemSafe LittleEndian 4 s3 of (r2, s4) \<Rightarrow>
            r1 = 0x11223344 \<and> r2 = 0xAABBCCDD \<and>
            fst (readMemSafe LittleEndian 4 s2) = 0xAABBCCDD \<and>
            read_bytes 0 4 (mem s2) = read_bytes 0 4 (mem s1))"
proof -
  have h: "slot 0 \<inter> slot 4 = {}"
    by (simp add: slot_def)
  show ?thesis
    using h writes_independent [where a = 0 and b = 4 and e = LittleEndian
        and ?v1.0 = "0x11223344" and ?v2.0 = "0xAABBCCDD"
        and s = "\<lparr>mem = (\<lambda>_. 0), trace = []\<rparr>"]
    by simp
qed

text \<open>
  C5 (what a write does). For every address \<open>a\<close> and value \<open>v\<close>, \<open>writeMemSafe\<close> returns
  no value (the unit value) and issues exactly three events after those of the machine it
  started from: a full barrier, the store of \<open>v\<close> at \<open>a\<close>, a full barrier. After the
  call the four bytes at \<open>a\<close> hold the representation of \<open>v\<close> and every byte outside of
  the slot of \<open>a\<close> is what it was.
\<close>

theorem writeMemSafe_sequence:
  "(case writeMemSafe e a v s of (r, s') \<Rightarrow>
      r = () \<and>
      trace s' = trace s @ [Barrier, Store a v, Barrier] \<and>
      read_bytes a 4 (mem s') = bytes_of e v \<and>
      (\<forall>p. p \<notin> slot a \<longrightarrow> mem s' p = mem s p))"
  by (simp add: writeMemSafe_eq read_store_same write_bytes_frame)

theorem writeMemSafe_sequence_witness:
  "(case writeMemSafe BigEndian 8 0xDEADBEEF \<lparr>mem = (\<lambda>_. 0x55), trace = []\<rparr> of (r, s') \<Rightarrow>
      r = () \<and>
      trace s' = [Barrier, Store 8 0xDEADBEEF, Barrier] \<and>
      read_bytes 8 4 (mem s') = [0xDE, 0xAD, 0xBE, 0xEF] \<and>
      12 \<notin> slot 8 \<and> mem s' 12 = 0x55 \<and> 7 \<notin> slot 8 \<and> mem s' 7 = 0x55)"
  using writeMemSafe_sequence [where e = BigEndian and a = 8 and v = "0xDEADBEEF"
      and s = "\<lparr>mem = (\<lambda>_. 0x55), trace = []\<rparr>"]
  by (simp add: slot_def bytes_of_def le_bytes_def split_beta)

text \<open>
  C6 (what a read does). For every address \<open>a\<close>, \<open>readMemSafe\<close> issues exactly three
  events after those of the machine it started from: a full barrier, the load at \<open>a\<close>, a
  full barrier. The value it returns is the value of that load, and it is the 32-bit
  number that the four bytes of the memory at \<open>a\<close>, \<open>a + 1\<close>, \<open>a + 2\<close>, \<open>a + 3\<close> make up
  in the byte order of the target (the byte at \<open>a\<close> is the lowest one on a little-endian
  target and the highest one on a big-endian target); taken apart again, the returned
  value gives back these four bytes. The call leaves the memory as it was.
\<close>

theorem readMemSafe_sequence:
  "(case readMemSafe e a s of (r, s') \<Rightarrow>
      r = (case e of
             LittleEndian \<Rightarrow>
               ucast (mem s a) OR push_bit 8 (ucast (mem s (a + 1))) OR
               push_bit 16 (ucast (mem s (a + 2))) OR push_bit 24 (ucast (mem s (a + 3)))
           | BigEndian \<Rightarrow>
               ucast (mem s (a + 3)) OR push_bit 8 (ucast (mem s (a + 2))) OR
               push_bit 16 (ucast (mem s (a + 1))) OR push_bit 24 (ucast (mem s a))) \<and>
      (case e of
         LittleEndian \<Rightarrow>
           [ucast r, ucast (drop_bit 8 r), ucast (drop_bit 16 r), ucast (drop_bit 24 r)]
       | BigEndian \<Rightarrow>
           [ucast (drop_bit 24 r), ucast (drop_bit 16 r), ucast (drop_bit 8 r), ucast r]) =
        [mem s a, mem s (a + 1), mem s (a + 2), mem s (a + 3)] \<and>
      trace s' = trace s @ [Barrier, Load a r, Barrier] \<and>
      mem s' = mem s)"
proof (cases e)
  case LittleEndian
  have "le_bytes (le_word [mem s a, mem s (a + 1), mem s (a + 2), mem s (a + 3)]) =
      [mem s a, mem s (a + 1), mem s (a + 2), mem s (a + 3)]"
    by (rule le_bytes_le_word)
  with LittleEndian show ?thesis
    by (simp add: readMemSafe_eq read_bytes_4 word_of_def le_word_4 le_bytes_def)
next
  case BigEndian
  have "le_bytes (le_word [mem s (a + 3), mem s (a + 2), mem s (a + 1), mem s a]) =
      [mem s (a + 3), mem s (a + 2), mem s (a + 1), mem s a]"
    by (rule le_bytes_le_word)
  with BigEndian show ?thesis
    by (simp add: readMemSafe_eq read_bytes_4 word_of_def le_word_4 le_bytes_def)
qed

theorem readMemSafe_sequence_witness:
  "(case readMemSafe LittleEndian 8
           \<lparr>mem = (\<lambda>_. 0)(8 := 0x11, 9 := 0x22, 10 := 0x33, 11 := 0x44), trace = []\<rparr> of
      (r, s') \<Rightarrow>
        r = 0x44332211 \<and>
        trace s' = [Barrier, Load 8 0x44332211, Barrier] \<and>
        mem s' = (\<lambda>_. 0)(8 := 0x11, 9 := 0x22, 10 := 0x33, 11 := 0x44)) \<and>
   (case readMemSafe BigEndian 8
           \<lparr>mem = (\<lambda>_. 0)(8 := 0x11, 9 := 0x22, 10 := 0x33, 11 := 0x44), trace = []\<rparr> of
      (r, s') \<Rightarrow>
        r = 0x11223344 \<and>
        trace s' = [Barrier, Load 8 0x11223344, Barrier] \<and>
        mem s' = (\<lambda>_. 0)(8 := 0x11, 9 := 0x22, 10 := 0x33, 11 := 0x44))"
  using
    readMemSafe_sequence [where e = LittleEndian and a = 8
      and s = "\<lparr>mem = (\<lambda>_. 0)(8 := 0x11, 9 := 0x22, 10 := 0x33, 11 := 0x44), trace = []\<rparr>"]
    readMemSafe_sequence [where e = BigEndian and a = 8
      and s = "\<lparr>mem = (\<lambda>_. 0)(8 := 0x11, 9 := 0x22, 10 := 0x33, 11 := 0x44), trace = []\<rparr>"]
  by (simp add: split_beta)

text \<open>
  C8 (no retained state). Let \<open>s1\<close> and \<open>s2\<close> be any two machines, reached by whatever
  earlier calls (their traces are unrelated). If the four bytes at \<open>a\<close> are the same in
  both, \<open>readMemSafe\<close> returns the same value in both. After \<open>writeMemSafe\<close> with the same
  address and value, the four bytes at \<open>a\<close> are the same in both, and when the two
  memories were equal before the call they are equal after it.
\<close>

theorem no_retained_state:
  "(read_bytes a 4 (mem s1) = read_bytes a 4 (mem s2) \<longrightarrow>
      fst (readMemSafe e a s1) = fst (readMemSafe e a s2)) \<and>
   read_bytes a 4 (mem (snd (writeMemSafe e a v s1))) =
     read_bytes a 4 (mem (snd (writeMemSafe e a v s2))) \<and>
   (mem s1 = mem s2 \<longrightarrow>
      mem (snd (writeMemSafe e a v s1)) = mem (snd (writeMemSafe e a v s2)))"
  by (simp add: writeMemSafe_eq readMemSafe_eq read_store_same)

theorem no_retained_state_witness:
  "read_bytes 0 4 (mem \<lparr>mem = (\<lambda>_. 0x7F), trace = []\<rparr>) =
     read_bytes 0 4 (mem \<lparr>mem = (\<lambda>_. 0x7F), trace = [Barrier, Load 0 0x7F7F7F7F, Barrier]\<rparr>) \<and>
   mem \<lparr>mem = (\<lambda>_. 0x7F), trace = []\<rparr> =
     mem \<lparr>mem = (\<lambda>_. 0x7F), trace = [Barrier, Load 0 0x7F7F7F7F, Barrier]\<rparr> \<and>
   fst (readMemSafe LittleEndian 0 \<lparr>mem = (\<lambda>_. 0x7F), trace = []\<rparr>) =
     fst (readMemSafe LittleEndian 0
       \<lparr>mem = (\<lambda>_. 0x7F), trace = [Barrier, Load 0 0x7F7F7F7F, Barrier]\<rparr>) \<and>
   mem (snd (writeMemSafe LittleEndian 0 0x01020304 \<lparr>mem = (\<lambda>_. 0x7F), trace = []\<rparr>)) =
     mem (snd (writeMemSafe LittleEndian 0 0x01020304
       \<lparr>mem = (\<lambda>_. 0x7F), trace = [Barrier, Load 0 0x7F7F7F7F, Barrier]\<rparr>))"
  using no_retained_state [where e = LittleEndian and a = 0 and v = "0x01020304"
      and ?s1.0 = "\<lparr>mem = (\<lambda>_. 0x7F), trace = []\<rparr>"
      and ?s2.0 = "\<lparr>mem = (\<lambda>_. 0x7F), trace = [Barrier, Load 0 0x7F7F7F7F, Barrier]\<rparr>"]
  by simp

text \<open>
  C9 (termination). The bodies of \<open>writeMemSafe\<close> and \<open>readMemSafe\<close> are straight-line:
  neither has a jump (so no loop), a call of itself or a waiting step. For every address
  (and value) and every machine, a call of either function returns: run statement by
  statement from its first statement, the body has returned after four steps (and so with
  any larger bound), with the result and the machine that the function is defined to give.
\<close>

theorem calls_terminate:
  "straight_line writeMemSafe_body \<and>
   straight_line readMemSafe_body \<and>
   run (4 + k) e writeMemSafe_body a v 0 None s = Some (None, snd (writeMemSafe e a v s)) \<and>
   run (4 + k) e readMemSafe_body a v 0 None s =
     Some (Some (fst (readMemSafe e a s)), snd (readMemSafe e a s))"
proof -
  have "straight_line writeMemSafe_body" "straight_line readMemSafe_body"
    by (simp_all add: writeMemSafe_body_def readMemSafe_body_def)
  moreover have
    "run (4 + k) e writeMemSafe_body a v 0 None s = Some (None, snd (writeMemSafe e a v s))"
    by (simp add: eval_nat_numeral writeMemSafe_body_def writeMemSafe_def split_beta)
  moreover have
    "run (4 + k) e readMemSafe_body a v 0 None s =
       Some (Some (fst (readMemSafe e a s)), snd (readMemSafe e a s))"
    by (simp add: eval_nat_numeral readMemSafe_body_def readMemSafe_def split_beta)
  ultimately show ?thesis
    by simp
qed

text \<open>
  C10 (a read changes no memory). For every address \<open>a\<close> and every machine, the memory
  after \<open>readMemSafe\<close> is the memory before it, at every byte, the four bytes at \<open>a\<close>
  included.
\<close>

theorem readMemSafe_leaves_memory:
  "mem (snd (readMemSafe e a s)) = mem s"
  by (rule mem_readMemSafe)

end
